theory Spec2Isabelle
  imports Main "HOL-Library.Sublist" "HOL-Library.Monad_Syntax"
begin

section \<open>Custom Field Checker: the reconciliation functions of Custom_Field_Checker.py\<close>

text \<open>
  The rows that the csv reader hands to the program are Python lists of strings, read by
  position (\<^verbatim>\<open>student[0]\<close> ... \<^verbatim>\<open>student[3]\<close>, \<^verbatim>\<open>item[4]\<close>). A row is therefore a
  \<open>string list\<close>, and a read past the end of a row raises IndexError in Python. The only
  exception the four functions can raise on lists of strings is IndexError, so a
  computation is an \<open>option\<close>: \<open>None\<close> is "IndexError propagates out of the function".
  A character is an element of the list; the functions only compare, search and slice.
\<close>

subsection \<open>Python primitives\<close>

type_synonym row = "string list"

text \<open>\<^verbatim>\<open>xs[i]\<close> for a non-negative index.\<close>

definition getitem :: "'a list \<Rightarrow> nat \<Rightarrow> 'a option" where
  "getitem xs i = (if i < length xs then Some (xs ! i) else None)"

text \<open>\<^verbatim>\<open>sub in s\<close> on strings: some position of \<open>s\<close> starts a copy of \<open>sub\<close>.\<close>

fun str_contains :: "string \<Rightarrow> string \<Rightarrow> bool" where
  "str_contains sub [] = (sub = [])"
| "str_contains sub (c # cs) = (prefix sub (c # cs) \<or> str_contains sub cs)"

text \<open>\<^verbatim>\<open>s.find(sub)\<close>: the lowest index where \<open>sub\<close> starts, or -1.\<close>

fun str_find :: "string \<Rightarrow> string \<Rightarrow> int" where
  "str_find [] sub = (if sub = [] then 0 else - 1)"
| "str_find (c # cs) sub =
     (if prefix sub (c # cs) then 0
      else (let r = str_find cs sub in if r < 0 then - 1 else r + 1))"

text \<open>
  \<^verbatim>\<open>s[lo:hi]\<close>: a negative bound counts from the end, both bounds are clipped to the
  string, and nothing is raised when the slice runs past the end.
\<close>

definition slice_bound :: "nat \<Rightarrow> int \<Rightarrow> nat" where
  "slice_bound n i = (if i < 0 then nat (max 0 (int n + i)) else min n (nat i))"

definition str_slice :: "string \<Rightarrow> int \<Rightarrow> int \<Rightarrow> string" where
  "str_slice s lo hi =
     (let a = slice_bound (length s) lo; b = slice_bound (length s) hi
      in take (b - a) (drop a s))"

subsection \<open>find_student_ids\<close>

definition "identifier" :: string where
  "identifier = ''FitNZ''"

text \<open>
  The three appends that build \<^verbatim>\<open>this_student\<close>:
  \<^verbatim>\<open>[student[0], student[1], student[2]]\<close>.
\<close>

definition this_student3 :: "row \<Rightarrow> row option" where
  "this_student3 student =
     do { s0 \<leftarrow> getitem student 0;
          s1 \<leftarrow> getitem student 1;
          s2 \<leftarrow> getitem student 2;
          Some [s0, s1, s2] }"

text \<open>One pass of the body of the while loop (lines 170-191), on the row at index \<open>i\<close>.\<close>

definition find_student_ids_body :: "row \<Rightarrow> row list \<Rightarrow> row list option" where
  "find_student_ids_body student missing_students =
     do { data \<leftarrow> getitem student 3;
          if str_contains identifier data then
            do { let location = str_find data identifier;
                 let student_id = str_slice data location (location + 9);
                 s0 \<leftarrow> getitem student 0;
                 if student_id \<noteq> s0 then
                   do { this_student \<leftarrow> this_student3 student;
                        Some (missing_students @ [this_student]) }
                 else Some missing_students }
          else
            do { this_student \<leftarrow> this_student3 student;
                 Some (missing_students @ [this_student]) } }"

function find_student_ids_loop :: "row list \<Rightarrow> nat \<Rightarrow> row list \<Rightarrow> row list option" where
  "find_student_ids_loop rows i missing_students =
     (if i < length rows then
        (case find_student_ids_body (rows ! i) missing_students of
           None \<Rightarrow> None
         | Some missing' \<Rightarrow> find_student_ids_loop rows (i + 1) missing')
      else Some missing_students)"
  by pat_completeness auto
termination
  by (relation "measure (\<lambda>(rows, i, missing). length rows - i)") auto

text \<open>
  \<^verbatim>\<open>student_data\<close> is what \<^verbatim>\<open>load_data\<close> returned: the rows, a flag and a list of
  warnings; the function reads \<^verbatim>\<open>student_data[0]\<close> only.
\<close>

type_synonym loaded = "row list \<times> bool \<times> string list"

definition find_student_ids :: "loaded \<Rightarrow> row list option" where
  "find_student_ids student_data = find_student_ids_loop (fst student_data) 0 []"

subsection \<open>find_tutors\<close>

text \<open>
  The \<^verbatim>\<open>for item in st_data\<close> loop of the matched path (lines 226-243): the first
  pairing row whose \<^verbatim>\<open>item[0]\<close> equals \<^verbatim>\<open>student[0]\<close> ends the loop, and the student is
  appended, with \<^verbatim>\<open>item[4]\<close>, only when the matched name differs from \<^verbatim>\<open>item[4]\<close>.
\<close>

fun check_pairing :: "string \<Rightarrow> row \<Rightarrow> row list \<Rightarrow> row list \<Rightarrow> row list option" where
  "check_pairing tutor student [] missing_tutors = Some missing_tutors"
| "check_pairing tutor student (item # st_data) missing_tutors =
     do { i0 \<leftarrow> getitem item 0;
          s0 \<leftarrow> getitem student 0;
          if i0 = s0 then
            do { i4 \<leftarrow> getitem item 4;
                 if tutor \<noteq> i4 then
                   do { this_student \<leftarrow> this_student3 student;
                        Some (missing_tutors @ [this_student @ [i4]]) }
                 else Some missing_tutors }
          else check_pairing tutor student st_data missing_tutors }"

text \<open>
  The inner while loop (lines 221-247) over the positions \<open>j\<close> of \<^verbatim>\<open>tutor_names\<close>; it
  returns the final \<^verbatim>\<open>tutor_found\<close> and \<^verbatim>\<open>missing_tutors\<close>.
\<close>

function find_tutors_scan ::
  "row \<Rightarrow> string list \<Rightarrow> row list \<Rightarrow> nat \<Rightarrow> bool \<Rightarrow> row list \<Rightarrow> (bool \<times> row list) option" where
  "find_tutors_scan student tutor_names st_data j tutor_found missing_tutors =
     (if j < length tutor_names \<and> \<not> tutor_found then
        do { data \<leftarrow> getitem student 3;
             if str_contains (tutor_names ! j) data then
               do { missing' \<leftarrow> check_pairing (tutor_names ! j) student st_data missing_tutors;
                    find_tutors_scan student tutor_names st_data j True missing' }
             else find_tutors_scan student tutor_names st_data (j + 1) tutor_found missing_tutors }
      else Some (tutor_found, missing_tutors))"
  by pat_completeness auto
termination
  by (relation "measure (\<lambda>(student, tutor_names, st_data, j, tutor_found, missing).
        2 * (length tutor_names - j) + (if tutor_found then 0 else 1))") auto

text \<open>The \<^verbatim>\<open>for item in st_data\<close> loop of the unmatched path (lines 250-255).\<close>

fun lookup_tutor :: "row \<Rightarrow> row list \<Rightarrow> string \<Rightarrow> string option" where
  "lookup_tutor student [] tutor = Some tutor"
| "lookup_tutor student (item # st_data) tutor =
     do { i0 \<leftarrow> getitem item 0;
          s0 \<leftarrow> getitem student 0;
          if i0 = s0 then getitem item 4
          else lookup_tutor student st_data tutor }"

text \<open>One pass of the body of the outer while loop (lines 216-261).\<close>

definition find_tutors_body :: "row \<Rightarrow> string list \<Rightarrow> row list \<Rightarrow> row list \<Rightarrow> row list option" where
  "find_tutors_body student tutor_names st_data missing_tutors =
     do { (tutor_found, missing') \<leftarrow>
            find_tutors_scan student tutor_names st_data 0 False missing_tutors;
          if \<not> tutor_found then
            do { tutor \<leftarrow> lookup_tutor student st_data [];
                 this_student \<leftarrow> this_student3 student;
                 Some (missing' @ [this_student @ [tutor]]) }
          else Some missing' }"

function find_tutors_loop ::
  "row list \<Rightarrow> string list \<Rightarrow> row list \<Rightarrow> nat \<Rightarrow> row list \<Rightarrow> row list option" where
  "find_tutors_loop rows tutor_names st_data i missing_tutors =
     (if i < length rows then
        (case find_tutors_body (rows ! i) tutor_names st_data missing_tutors of
           None \<Rightarrow> None
         | Some missing' \<Rightarrow> find_tutors_loop rows tutor_names st_data (i + 1) missing')
      else Some missing_tutors)"
  by pat_completeness auto
termination
  by (relation "measure (\<lambda>(rows, tutor_names, st_data, i, missing). length rows - i)") auto

definition find_tutors :: "loaded \<Rightarrow> string list \<Rightarrow> row list \<Rightarrow> row list option" where
  "find_tutors student_data tutor_names st_data =
     find_tutors_loop (fst student_data) tutor_names st_data 0 []"

subsection \<open>check_fields_data and check_s_t\<close>

text \<open>
  \<^verbatim>\<open>ft.process_error_log\<close> belongs to another package; the call is recorded, with its two
  arguments, in the result. \<open>log_call\<close> is \<open>None\<close> when the call is not made. The other
  two fields are the pair the function returns.
\<close>

record check_result =
  log_call :: "(string list \<times> string) option"
  any_warnings :: bool
  warning_list :: "string list"

text \<open>The body of the for loop of \<^verbatim>\<open>check_fields_data\<close> (lines 43-51).\<close>

definition check_fields_student ::
  "row \<Rightarrow> string list \<times> string list \<Rightarrow> (string list \<times> string list) option" where
  "check_fields_student student acc =
     (case acc of (errors, warnings) \<Rightarrow>
        do { s1 \<leftarrow> getitem student 1;
             warnings1 \<leftarrow>
               (if s1 = [] then
                  do { s0 \<leftarrow> getitem student 0;
                       Some (warnings @
                         [''First Name is missing for student with Student ID '' @ s0]) }
                else Some warnings);
             s2 \<leftarrow> getitem student 2;
             warnings2 \<leftarrow>
               (if s2 = [] then
                  do { s0 \<leftarrow> getitem student 0;
                       Some (warnings1 @
                         [''Last Name is missing for student with Student ID '' @ s0]) }
                else Some warnings1);
             s3 \<leftarrow> getitem student 3;
             errors1 \<leftarrow>
               (if s3 = [] then
                  do { s0 \<leftarrow> getitem student 0;
                       Some (errors @
                         [''Data is missing for student with Student ID '' @ s0]) }
                else Some errors);
             Some (errors1, warnings2) })"

fun check_fields_loop ::
  "row list \<Rightarrow> string list \<times> string list \<Rightarrow> (string list \<times> string list) option" where
  "check_fields_loop [] acc = Some acc"
| "check_fields_loop (student # report_data) acc =
     do { acc' \<leftarrow> check_fields_student student acc;
          check_fields_loop report_data acc' }"

definition finish_check :: "string \<Rightarrow> string list \<times> string list \<Rightarrow> check_result" where
  "finish_check title acc =
     (case acc of (errors, warnings) \<Rightarrow>
        \<lparr> log_call = (if length errors > 0 then Some (errors, title) else None),
          any_warnings = (length warnings > 1),
          warning_list = warnings \<rparr>)"

definition check_fields_data :: "row list \<Rightarrow> check_result option" where
  "check_fields_data report_data =
     do { acc \<leftarrow> check_fields_loop report_data
                  ([], [CHR 0x0A # ''Student Profile Fields Report Warnings:'' @ [CHR 0x0A]]);
          Some (finish_check ''Student Profile Fields Report'' acc) }"

text \<open>The body of the for loop of \<^verbatim>\<open>check_s_t\<close> (lines 85-96).\<close>

definition check_s_t_student ::
  "row \<Rightarrow> string list \<times> string list \<Rightarrow> (string list \<times> string list) option" where
  "check_s_t_student student acc =
     (case acc of (errors, warnings) \<Rightarrow>
        do { s1 \<leftarrow> getitem student 1;
             warnings1 \<leftarrow>
               (if s1 = [] then
                  do { s0 \<leftarrow> getitem student 0;
                       Some (warnings @
                         [''First Name is missing for student with Student ID '' @ s0]) }
                else Some warnings);
             s2 \<leftarrow> getitem student 2;
             warnings2 \<leftarrow>
               (if s2 = [] then
                  do { s0 \<leftarrow> getitem student 0;
                       Some (warnings1 @
                         [''Last Name is missing for student with Student ID '' @ s0]) }
                else Some warnings1);
             s3 \<leftarrow> getitem student 3;
             warnings3 \<leftarrow>
               (if s3 = [] then
                  do { s0 \<leftarrow> getitem student 0;
                       Some (warnings2 @
                         [''Course is missing for student with Student ID '' @ s0]) }
                else Some warnings2);
             s4 \<leftarrow> getitem student 4;
             errors1 \<leftarrow>
               (if s4 = [] then
                  do { s0 \<leftarrow> getitem student 0;
                       Some (errors @
                         [''Tutor is missing for student with Student ID '' @ s0]) }
                else Some errors);
             Some (errors1, warnings3) })"

fun check_s_t_loop ::
  "row list \<Rightarrow> string list \<times> string list \<Rightarrow> (string list \<times> string list) option" where
  "check_s_t_loop [] acc = Some acc"
| "check_s_t_loop (student # report_data) acc =
     do { acc' \<leftarrow> check_s_t_student student acc;
          check_s_t_loop report_data acc' }"

definition check_s_t :: "row list \<Rightarrow> check_result option" where
  "check_s_t report_data =
     do { acc \<leftarrow> check_s_t_loop report_data
                  ([], [CHR 0x0A # ''Students Tutors data Warnings:'' @ [CHR 0x0A]]);
          Some (finish_check ''Student Tutors Data'' acc) }"

subsection \<open>Notions used to state the properties\<close>

text \<open>
  \<open>first_at sub s p\<close>: the first copy of \<open>sub\<close> in \<open>s\<close> starts at position \<open>p\<close>.
\<close>

definition first_at :: "string \<Rightarrow> string \<Rightarrow> nat \<Rightarrow> bool" where
  "first_at sub s p \<longleftrightarrow> prefix sub (drop p s) \<and> (\<forall>q<p. \<not> prefix sub (drop q s))"

text \<open>
  Running a loop body over the rows from first to last, stopping at the first exception;
  the index loops of the two functions are shown below to be this iteration.
\<close>

fun run_body :: "('a \<Rightarrow> 'b \<Rightarrow> 'b option) \<Rightarrow> 'a list \<Rightarrow> 'b \<Rightarrow> 'b option" where
  "run_body f [] acc = Some acc"
| "run_body f (x # xs) acc =
     (case f x acc of None \<Rightarrow> None | Some acc' \<Rightarrow> run_body f xs acc')"

section \<open>Facts about the primitives and the loops\<close>

declare find_student_ids_loop.simps [simp del]
declare find_tutors_scan.simps [simp del]
declare find_tutors_loop.simps [simp del]

lemma getitem_in: "i < length xs \<Longrightarrow> getitem xs i = Some (xs ! i)"
  by (simp add: getitem_def)

lemma getitem_out: "length xs \<le> i \<Longrightarrow> getitem xs i = None"
  by (simp add: getitem_def)

lemma getitem_row:
  "0 < length r \<Longrightarrow> getitem r 0 = Some (r ! 0)"
  "1 < length r \<Longrightarrow> getitem r 1 = Some (r ! 1)"
  "2 < length r \<Longrightarrow> getitem r 2 = Some (r ! 2)"
  "3 < length r \<Longrightarrow> getitem r 3 = Some (r ! 3)"
  "4 < length r \<Longrightarrow> getitem r 4 = Some (r ! 4)"
  by (simp_all add: getitem_def)

lemma getitem4:
  assumes "4 \<le> length r"
  shows "getitem r 0 = Some (r ! 0)" "getitem r 1 = Some (r ! 1)"
    "getitem r (Suc 0) = Some (r ! 1)"
    "getitem r 2 = Some (r ! 2)" "getitem r 3 = Some (r ! 3)"
  using assms by (auto simp: getitem_def)

lemma this_student3_in: "3 \<le> length r \<Longrightarrow> this_student3 r = Some [r ! 0, r ! 1, r ! 2]"
proof -
  assume "3 \<le> length r"
  then have "0 < length r" "1 < length r" "2 < length r" by auto
  then show ?thesis
    unfolding this_student3_def by (simp add: getitem_def)
qed

lemma this_student3_length: "this_student3 r = Some t \<Longrightarrow> 3 \<le> length r"
proof (rule ccontr)
  assume a: "this_student3 r = Some t" and "\<not> 3 \<le> length r"
  then have "getitem r 2 = None" by (simp add: getitem_out)
  then have "this_student3 r = None"
    by (simp add: this_student3_def split: Option.bind_split)
  with a show False by simp
qed

lemma take3: "3 \<le> length r \<Longrightarrow> take 3 r = [r ! 0, r ! 1, r ! 2]"
proof -
  assume "3 \<le> length r"
  then obtain x y z rest where "r = x # y # z # rest"
    by (metis One_nat_def Suc_1 Suc_le_length_iff numeral_3_eq_3)
  then show ?thesis by (simp add: numeral_3_eq_3)
qed

lemma this_student3_take: "this_student3 r = Some t \<Longrightarrow> t = take 3 r"
  using this_student3_length[of r t] this_student3_in[of r] take3[of r] by simp

lemma str_contains_sublist: "str_contains sub s \<longleftrightarrow> sublist sub s"
  by (induction s) (auto simp: sublist_Cons_right)

lemma str_find_first: "first_at sub s p \<Longrightarrow> str_find s sub = int p"
proof (induction s arbitrary: p)
  case Nil
  then show ?case by (auto simp: first_at_def)
next
  case (Cons c cs)
  show ?case
  proof (cases p)
    case 0
    with Cons.prems show ?thesis by (simp add: first_at_def)
  next
    case (Suc p')
    from Cons.prems Suc have np: "\<not> prefix sub (c # cs)"
      by (auto simp: first_at_def dest: spec[of _ 0])
    have "first_at sub cs p'"
      unfolding first_at_def
    proof (intro conjI allI impI)
      show "prefix sub (drop p' cs)" using Cons.prems Suc by (simp add: first_at_def)
      fix q assume "q < p'"
      then have "Suc q < p" using Suc by simp
      with Cons.prems have "\<not> prefix sub (drop (Suc q) (c # cs))"
        unfolding first_at_def by blast
      then show "\<not> prefix sub (drop q cs)" by simp
    qed
    then have "str_find cs sub = int p'" by (rule Cons.IH)
    with np Suc show ?thesis by simp
  qed
qed

lemma first_at_sublist: "first_at sub s p \<Longrightarrow> sublist sub s"
  unfolding first_at_def
  by (metis sublist_order.order.trans prefix_imp_sublist sublist_drop)

lemma str_slice_9: "str_slice s (int p) (int p + 9) = take 9 (drop p s)"
proof (cases "p \<le> length s")
  case True
  then show ?thesis
    by (simp add: str_slice_def slice_bound_def Let_def min_def nat_add_distrib)
next
  case False
  then show ?thesis
    by (simp add: str_slice_def slice_bound_def Let_def min_def nat_add_distrib)
qed

lemma body_marker_absent:
  assumes "4 \<le> length r" "\<not> sublist identifier (r ! 3)"
  shows "find_student_ids_body r m = Some (m @ [[r ! 0, r ! 1, r ! 2]])"
proof -
  from assms(1) have "3 < length r" "3 \<le> length r" by simp_all
  then show ?thesis using assms(2)
    unfolding find_student_ids_body_def
    by (simp add: getitem4[OF assms(1)] this_student3_in str_contains_sublist)
qed

lemma body_marker_present:
  assumes "4 \<le> length r" "first_at identifier (r ! 3) p"
  shows "find_student_ids_body r m =
     Some (if take 9 (drop p (r ! 3)) = r ! 0 then m else m @ [[r ! 0, r ! 1, r ! 2]])"
proof -
  from assms(1) have l: "3 < length r" "3 \<le> length r" "0 < length r" by auto
  have c: "str_contains identifier (r ! 3)"
    using first_at_sublist[OF assms(2)] by (simp add: str_contains_sublist)
  have f: "str_find (r ! 3) identifier = int p" by (rule str_find_first[OF assms(2)])
  show ?thesis
    unfolding find_student_ids_body_def
    by (simp add: getitem4[OF assms(1)] l this_student3_in c f str_slice_9)
qed

lemma body_acc: "find_student_ids_body r m = map_option ((@) m) (find_student_ids_body r [])"
  unfolding find_student_ids_body_def
  by (auto simp: Let_def split: Option.bind_split)

lemma run_body_append:
  "run_body f (xs @ ys) acc = (case run_body f xs acc of None \<Rightarrow> None | Some a \<Rightarrow> run_body f ys a)"
  by (induction xs arbitrary: acc) (auto split: option.splits)

lemma run_body_acc:
  assumes "\<And>x m. f x m = map_option ((@) m) (f x [])"
  shows "run_body f xs m = map_option ((@) m) (run_body f xs [])"
proof (induction xs arbitrary: m)
  case Nil
  then show ?case by simp
next
  case (Cons x xs)
  show ?case
  proof (cases "f x []")
    case None
    then show ?thesis using assms[of x m] by simp
  next
    case (Some e)
    then have 1: "f x m = Some (m @ e)" using assms[of x m] by simp
    have "run_body f xs (m @ e) = map_option ((@) (m @ e)) (run_body f xs [])"
      by (rule Cons.IH)
    moreover have "run_body f xs e = map_option ((@) e) (run_body f xs [])"
      by (rule Cons.IH)
    ultimately show ?thesis using Some 1
      by (cases "run_body f xs []") simp_all
  qed
qed

lemma find_student_ids_loop_run:
  "find_student_ids_loop rows i m = run_body find_student_ids_body (drop i rows) m"
proof (induction rows i m rule: find_student_ids_loop.induct)
  case (1 rows i m)
  show ?case
  proof (cases "i < length rows")
    case True
    then have d: "drop i rows = rows ! i # drop (Suc i) rows"
      by (simp add: Cons_nth_drop_Suc)
    show ?thesis
    proof (cases "find_student_ids_body (rows ! i) m")
      case None
      with True d show ?thesis
        by (subst find_student_ids_loop.simps) simp
    next
      case (Some m')
      with True d "1.IH"[OF True Some] show ?thesis
        by (subst find_student_ids_loop.simps) simp
    qed
  next
    case False
    then show ?thesis by (subst find_student_ids_loop.simps) simp
  qed
qed

lemma find_student_ids_run:
  "find_student_ids (rows, flag, ws) = run_body find_student_ids_body rows []"
  by (simp add: find_student_ids_def find_student_ids_loop_run del: find_student_ids_loop.simps)

lemma run_body_split:
  assumes "\<And>x m. f x m = map_option ((@) m) (f x [])"
  shows "run_body f (xs @ r # ys) [] =
    (case run_body f xs [] of None \<Rightarrow> None | Some a \<Rightarrow>
      (case f r [] of None \<Rightarrow> None | Some e \<Rightarrow>
        (case run_body f ys [] of None \<Rightarrow> None | Some c \<Rightarrow> Some (a @ e @ c))))"
proof (cases "run_body f xs []")
  case None
  then show ?thesis by (simp add: run_body_append)
next
  case (Some a)
  show ?thesis
  proof (cases "f r []")
    case None
    then show ?thesis using Some assms[of r a] by (simp add: run_body_append)
  next
    case e: (Some e)
    then have "f r a = Some (a @ e)" using assms[of r a] by simp
    then show ?thesis using Some e run_body_acc[of f ys "a @ e", OF assms]
      by (cases "run_body f ys []") (simp_all add: run_body_append)
  qed
qed

lemma run_body_skip:
  assumes "\<And>x m. f x m = map_option ((@) m) (f x [])" and "f r [] = Some []"
  shows "run_body f (xs @ r # ys) [] = run_body f (xs @ ys) []"
proof -
  have "run_body f (xs @ ys) [] =
    (case run_body f xs [] of None \<Rightarrow> None | Some a \<Rightarrow>
        (case run_body f ys [] of None \<Rightarrow> None | Some c \<Rightarrow> Some (a @ c)))"
  proof (cases "run_body f xs []")
    case None
    then show ?thesis by (simp add: run_body_append)
  next
    case (Some a)
    then show ?thesis using run_body_acc[of f ys a, OF assms(1)]
      by (cases "run_body f ys []") (simp_all add: run_body_append)
  qed
  then show ?thesis using assms(2)
    by (simp add: run_body_split[of f, OF assms(1)] split: option.splits)
qed

text \<open>
  The result on a list of rows is the concatenation of what each row contributes, so a
  row can be studied between any rows \<open>xs\<close> before it and \<open>ys\<close> after it.
\<close>

lemma find_student_ids_insert:
  "find_student_ids (xs @ r # ys, flag, ws) =
    (case find_student_ids (xs, flag, ws) of None \<Rightarrow> None | Some a \<Rightarrow>
      (case find_student_ids_body r [] of None \<Rightarrow> None | Some e \<Rightarrow>
        (case find_student_ids (ys, flag, ws) of None \<Rightarrow> None | Some c \<Rightarrow> Some (a @ e @ c))))"
  unfolding find_student_ids_run
  by (rule run_body_split) (rule body_acc)

lemma find_student_ids_skip:
  "find_student_ids_body r [] = Some [] \<Longrightarrow>
   find_student_ids (xs @ r # ys, flag, ws) = find_student_ids (xs @ ys, flag, ws)"
  unfolding find_student_ids_run
  by (rule run_body_skip) (rule body_acc, assumption)

lemma marker_no_overlap:
  assumes "q < length pre" "prefix ''FitNZ'' (drop q (pre @ ''FitNZ'' @ rest))"
  shows "sublist ''FitNZ'' pre"
proof -
  define u where "u = drop q pre"
  have u: "u \<noteq> []" using assms(1) by (simp add: u_def)
  have d: "drop q (pre @ ''FitNZ'' @ rest) = u @ ''FitNZ'' @ rest"
    using assms(1) by (simp add: u_def)
  from assms(2) d have "prefix ''FitNZ'' (u @ ''FitNZ'' @ rest)" by simp
  then have "prefix ''FitNZ'' u \<or> (\<exists>us. ''FitNZ'' = u @ us \<and> prefix us (''FitNZ'' @ rest))"
    by (simp add: prefix_append)
  then have "prefix ''FitNZ'' u"
    using u by (auto simp: Cons_eq_append_conv)
  then have "sublist ''FitNZ'' u" by (rule prefix_imp_sublist)
  moreover have "sublist u pre" by (simp add: u_def)
  ultimately show ?thesis by (rule sublist_order.order.trans)
qed

section \<open>The identifier check\<close>

text \<open>
  C10. When the data field holds the marker more than once, only the first occurrence
  counts: with the first copy of the marker at position \<open>p\<close>, the row is left out exactly
  when the 9 characters from \<open>p\<close> equal \<^verbatim>\<open>student[0]\<close>, and is appended otherwise,
  whatever follows in the field (a later exact copy of the identifier included).
\<close>

theorem first_marker_occurrence_decides:
  assumes "4 \<le> length student"
    and "first_at identifier (student ! 3) p"
    and "find_student_ids (xs, flag, ws) = Some a"
    and "find_student_ids (ys, flag, ws) = Some c"
  shows "find_student_ids (xs @ student # ys, flag, ws) =
     (if take 9 (drop p (student ! 3)) = student ! 0 then Some (a @ c)
      else Some (a @ [student ! 0, student ! 1, student ! 2] # c))"
  using assms(3,4) body_marker_present[OF assms(1,2), of "[]"]
  by (simp add: find_student_ids_insert)

theorem first_marker_occurrence_decides_witness:
  "4 \<le> length [''FitNZ1234'', ''A'', ''B'', ''FitNZ9999 FitNZ1234'']
   \<and> first_at identifier ([''FitNZ1234'', ''A'', ''B'', ''FitNZ9999 FitNZ1234''] ! 3) 0
   \<and> find_student_ids ([[''S2'', ''Bo'', ''Tan'', ''no-token-here'']], False, [])
       = Some [[''S2'', ''Bo'', ''Tan'']]
   \<and> find_student_ids ([], False, []) = Some []
   \<and> find_student_ids ([[''S2'', ''Bo'', ''Tan'', ''no-token-here''],
         [''FitNZ1234'', ''A'', ''B'', ''FitNZ9999 FitNZ1234'']], False, [])
       = Some [[''S2'', ''Bo'', ''Tan''], [''FitNZ1234'', ''A'', ''B'']]"
proof -
  have h1: "4 \<le> length [''FitNZ1234'', ''A'', ''B'', ''FitNZ9999 FitNZ1234'']" by simp
  have h2: "first_at identifier ([''FitNZ1234'', ''A'', ''B'', ''FitNZ9999 FitNZ1234''] ! 3) 0"
    by (simp add: first_at_def identifier_def)
  have h3: "find_student_ids ([[''S2'', ''Bo'', ''Tan'', ''no-token-here'']], False, [])
       = Some [[''S2'', ''Bo'', ''Tan'']]"
    by code_simp
  have h4: "find_student_ids ([], False, []) = Some []"
    by code_simp
  show ?thesis
    using h1 h2 h3 h4 first_marker_occurrence_decides[OF h1 h2 h3 h4] by simp
qed

lemma first_at_code [code]:
  "first_at sub s p \<longleftrightarrow>
     prefix sub (drop p s) \<and> list_all (\<lambda>q. \<not> prefix sub (drop q s)) [0..<p]"
  by (auto simp: first_at_def list_all_iff)

lemma first_at_embedded:
  assumes "prefix identifier sid" "\<not> sublist identifier pre"
  shows "first_at identifier (pre @ sid @ post) (length pre)"
proof -
  from assms(1) obtain t where sid: "sid = ''FitNZ'' @ t"
    by (auto simp: prefix_def identifier_def)
  have "\<not> prefix identifier (drop q (pre @ sid @ post))" if "q < length pre" for q
  proof
    assume "prefix identifier (drop q (pre @ sid @ post))"
    then have "prefix ''FitNZ'' (drop q (pre @ ''FitNZ'' @ (t @ post)))"
      by (simp add: sid identifier_def)
    from marker_no_overlap[OF that this] assms(2) show False
      by (simp add: identifier_def)
  qed
  moreover have "prefix identifier (drop (length pre) (pre @ sid @ post))"
    by (simp add: sid identifier_def)
  ultimately show ?thesis by (simp add: first_at_def)
qed

text \<open>
  C1 as stated fails. The slice starts at the marker, so it holds the marker and the four
  characters after it: a field made of the marker followed by the identifier \<open>1234\<close>
  gives the slice \<open>FitNZ1234\<close>, which differs from \<open>1234\<close>, and the row is appended.
\<close>

theorem marker_then_id_counterexample:
  "[''1234'', ''Ann'', ''Lee'', ''FitNZ1234''] ! 3
     = identifier @ [''1234'', ''Ann'', ''Lee'', ''FitNZ1234''] ! 0
   \<and> find_student_ids ([[''1234'', ''Ann'', ''Lee'', ''FitNZ1234'']], False, [])
     = Some [[''1234'', ''Ann'', ''Lee'']]"
  by code_simp

text \<open>
  C1, amended. The identifier is itself the 9-character token that starts with the marker.
  When the data field holds a copy of \<^verbatim>\<open>student[0]\<close>, a token of 9 characters that
  starts with the marker, and the marker does not occur before that copy, the row adds
  nothing to the result: the 9 characters from the marker's position are compared with
  \<^verbatim>\<open>student[0]\<close> and are equal to it.
\<close>

theorem embedded_id_not_flagged:
  assumes "4 \<le> length student"
    and "student ! 3 = pre @ student ! 0 @ post"
    and "length (student ! 0) = 9"
    and "prefix identifier (student ! 0)"
    and "\<not> sublist identifier pre"
  shows "find_student_ids (xs @ student # ys, flag, ws) = find_student_ids (xs @ ys, flag, ws)"
proof -
  have f: "first_at identifier (student ! 3) (length pre)"
    using first_at_embedded[OF assms(4,5), of post] assms(2) by simp
  have "take 9 (drop (length pre) (student ! 3)) = student ! 0"
    using assms(2,3) by simp
  then have "find_student_ids_body student [] = Some []"
    using body_marker_present[OF assms(1) f, of "[]"] by simp
  then show ?thesis by (rule find_student_ids_skip)
qed

theorem embedded_id_not_flagged_witness:
  "4 \<le> length [''FitNZ1234'', ''Ann'', ''Lee'', ''id: FitNZ1234 ok'']
   \<and> [''FitNZ1234'', ''Ann'', ''Lee'', ''id: FitNZ1234 ok''] ! 3
       = ''id: '' @ [''FitNZ1234'', ''Ann'', ''Lee'', ''id: FitNZ1234 ok''] ! 0 @ '' ok''
   \<and> length ([''FitNZ1234'', ''Ann'', ''Lee'', ''id: FitNZ1234 ok''] ! 0) = 9
   \<and> prefix identifier ([''FitNZ1234'', ''Ann'', ''Lee'', ''id: FitNZ1234 ok''] ! 0)
   \<and> \<not> sublist identifier ''id: ''
   \<and> find_student_ids ([[''S2'', ''Bo'', ''Tan'', ''no-token-here''],
         [''FitNZ1234'', ''Ann'', ''Lee'', ''id: FitNZ1234 ok'']], False, [])
       = Some [[''S2'', ''Bo'', ''Tan'']]"
proof -
  have h1: "4 \<le> length [''FitNZ1234'', ''Ann'', ''Lee'', ''id: FitNZ1234 ok'']" by simp
  have h2: "[''FitNZ1234'', ''Ann'', ''Lee'', ''id: FitNZ1234 ok''] ! 3
       = ''id: '' @ [''FitNZ1234'', ''Ann'', ''Lee'', ''id: FitNZ1234 ok''] ! 0 @ '' ok''"
    by simp
  have h3: "length ([''FitNZ1234'', ''Ann'', ''Lee'', ''id: FitNZ1234 ok''] ! 0) = 9" by simp
  have h4: "prefix identifier ([''FitNZ1234'', ''Ann'', ''Lee'', ''id: FitNZ1234 ok''] ! 0)"
    by (simp add: identifier_def)
  have h5: "\<not> sublist identifier ''id: ''"
    by (simp add: identifier_def sublist_Cons_right)
  have r: "find_student_ids ([[''S2'', ''Bo'', ''Tan'', ''no-token-here'']] @ [], False, [])
       = Some [[''S2'', ''Bo'', ''Tan'']]"
    by code_simp
  show ?thesis
    using h1 h2 h3 h4 h5 r
      embedded_id_not_flagged[OF h1 h2 h3 h4 h5,
        of "[[''S2'', ''Bo'', ''Tan'', ''no-token-here'']]" "[]" False "[]"]
    by simp
qed

text \<open>
  C3 as stated fails. A slice that runs past the end of the field is cut at the end and
  compared like any other: the field \<open>FitNZ1\<close> of a row whose identifier is \<open>FitNZ1\<close>
  holds the marker, has fewer than 9 characters, and the row is not appended.
\<close>

theorem short_field_counterexample:
  "str_contains identifier ([''FitNZ1'', ''A'', ''B'', ''FitNZ1''] ! 3)
   \<and> length ([''FitNZ1'', ''A'', ''B'', ''FitNZ1''] ! 3) < 9
   \<and> find_student_ids ([[''FitNZ1'', ''A'', ''B'', ''FitNZ1'']], False, []) = Some []"
  by code_simp

text \<open>
  C3, amended. When the field ends less than 9 characters after the first copy of the
  marker, at position \<open>p\<close>, nothing is raised: the rest of the field from \<open>p\<close> is
  compared with \<^verbatim>\<open>student[0]\<close>, and the row is appended exactly when they differ. It
  is always appended when \<^verbatim>\<open>student[0]\<close> has 9 characters or more.
\<close>

theorem short_field_compared:
  assumes "4 \<le> length student"
    and "first_at identifier (student ! 3) p"
    and "length (student ! 3) < p + 9"
    and "find_student_ids (xs, flag, ws) = Some a"
    and "find_student_ids (ys, flag, ws) = Some c"
  shows "find_student_ids (xs @ student # ys, flag, ws) =
           (if drop p (student ! 3) = student ! 0 then Some (a @ c)
            else Some (a @ [student ! 0, student ! 1, student ! 2] # c))
         \<and> (9 \<le> length (student ! 0) \<longrightarrow>
              find_student_ids (xs @ student # ys, flag, ws) =
                Some (a @ [student ! 0, student ! 1, student ! 2] # c))"
proof -
  have t: "take 9 (drop p (student ! 3)) = drop p (student ! 3)"
    using assms(3) by simp
  have e: "find_student_ids (xs @ student # ys, flag, ws) =
           (if drop p (student ! 3) = student ! 0 then Some (a @ c)
            else Some (a @ [student ! 0, student ! 1, student ! 2] # c))"
    using assms(4,5) body_marker_present[OF assms(1,2), of "[]"] t
    by (simp add: find_student_ids_insert)
  have "drop p (student ! 3) \<noteq> student ! 0" if "9 \<le> length (student ! 0)"
  proof
    assume "drop p (student ! 3) = student ! 0"
    then have "length (student ! 0) = length (student ! 3) - p" by (metis length_drop)
    with that assms(3) show False by simp
  qed
  with e show ?thesis by simp
qed

theorem short_field_compared_witness:
  "4 \<le> length [''FitNZ1234'', ''A'', ''B'', ''see FitNZ12'']
   \<and> first_at identifier ([''FitNZ1234'', ''A'', ''B'', ''see FitNZ12''] ! 3) 4
   \<and> length ([''FitNZ1234'', ''A'', ''B'', ''see FitNZ12''] ! 3) < 4 + 9
   \<and> find_student_ids ([], False, []) = Some []
   \<and> find_student_ids ([[''FitNZ1234'', ''A'', ''B'', ''see FitNZ12'']], False, [])
       = Some [[''FitNZ1234'', ''A'', ''B'']]"
proof -
  have h1: "4 \<le> length [''FitNZ1234'', ''A'', ''B'', ''see FitNZ12'']" by simp
  have h2: "first_at identifier ([''FitNZ1234'', ''A'', ''B'', ''see FitNZ12''] ! 3) 4"
    by code_simp
  have h3: "length ([''FitNZ1234'', ''A'', ''B'', ''see FitNZ12''] ! 3) < 4 + 9" by simp
  have h4: "find_student_ids ([], False, []) = Some []" by code_simp
  show ?thesis
    using h1 h2 h3 h4 short_field_compared[OF h1 h2 h3 h4 h4] by simp
qed

section \<open>Facts about find_tutors\<close>

text \<open>
  Once \<^verbatim>\<open>tutor_found\<close> is set the inner loop stops; until then it looks for the first
  name of \<^verbatim>\<open>tutor_names\<close>, from position \<open>j\<close> on, that occurs in \<^verbatim>\<open>student[3]\<close>.
\<close>

lemma scan_found: "find_tutors_scan r names st j True m = Some (True, m)"
  by (subst find_tutors_scan.simps) simp

lemma scan_search:
  "\<not> found \<Longrightarrow> find_tutors_scan r names st j found m =
     (if j < length names then
        (case getitem r 3 of None \<Rightarrow> None
         | Some data \<Rightarrow>
            (case List.find (\<lambda>n. str_contains n data) (drop j names) of
               None \<Rightarrow> Some (False, m)
             | Some n \<Rightarrow> map_option (Pair True) (check_pairing n r st m)))
      else Some (False, m))"
proof (induction r names st j found m rule: find_tutors_scan.induct)
  case (1 r names st j found m)
  show ?case
  proof (cases "j < length names")
    case False
    with "1.prems" show ?thesis by (subst find_tutors_scan.simps) simp
  next
    case True
    then have d: "drop j names = names ! j # drop (Suc j) names"
      by (simp add: Cons_nth_drop_Suc)
    show ?thesis
    proof (cases "getitem r 3")
      case None
      with True "1.prems" show ?thesis by (subst find_tutors_scan.simps) simp
    next
      case (Some data)
      show ?thesis
      proof (cases "str_contains (names ! j) data")
        case c: True
        with True "1.prems" Some d show ?thesis
          by (subst find_tutors_scan.simps)
             (cases "check_pairing (names ! j) r st m"; simp add: scan_found)
      next
        case c: False
        have cond: "j < length names \<and> \<not> found" using True "1.prems" by simp
        have ih: "find_tutors_scan r names st (j + 1) found m =
          (if j + 1 < length names then
             (case getitem r 3 of None \<Rightarrow> None
              | Some data \<Rightarrow>
                 (case List.find (\<lambda>n. str_contains n data) (drop (j + 1) names) of
                    None \<Rightarrow> Some (False, m)
                  | Some n \<Rightarrow> map_option (Pair True) (check_pairing n r st m)))
           else Some (False, m))"
          using "1.IH"(2)[OF cond Some c "1.prems"] .
        have e: "find_tutors_scan r names st j found m = find_tutors_scan r names st (j + 1) found m"
          using True "1.prems" Some c by (subst find_tutors_scan.simps) simp
        show ?thesis
          unfolding e ih using True Some c d by auto
      qed
    qed
  qed
qed

text \<open>The body of the outer loop, as a function of the row.\<close>

lemma find_tutors_body_eq:
  "find_tutors_body r names st m =
     (case (if names = [] then Some None
            else map_option (\<lambda>data. List.find (\<lambda>n. str_contains n data) names) (getitem r 3)) of
        None \<Rightarrow> None
      | Some None \<Rightarrow>
          (case lookup_tutor r st [] of None \<Rightarrow> None
           | Some tutor \<Rightarrow>
              (case this_student3 r of None \<Rightarrow> None
               | Some t \<Rightarrow> Some (m @ [t @ [tutor]])))
      | Some (Some n) \<Rightarrow> check_pairing n r st m)"
proof (cases "names = []")
  case True
  then show ?thesis
    unfolding find_tutors_body_def
    by (simp add: scan_search split: Option.bind_split)
next
  case False
  show ?thesis
  proof (cases "getitem r 3")
    case None
    with False show ?thesis
      unfolding find_tutors_body_def by (simp add: scan_search)
  next
    case (Some data)
    show ?thesis
    proof (cases "List.find (\<lambda>n. str_contains n data) names")
      case None
      with False Some show ?thesis
        unfolding find_tutors_body_def
        by (simp add: scan_search split: Option.bind_split)
    next
      case n: (Some n)
      with False Some show ?thesis
        unfolding find_tutors_body_def
        by (cases "check_pairing n r st m") (simp_all add: scan_search)
    qed
  qed
qed

lemma check_pairing_acc:
  "check_pairing t r st m = map_option ((@) m) (check_pairing t r st [])"
  by (induction st) (auto split: Option.bind_split)

lemma find_tutors_body_acc:
  "find_tutors_body r names st m = map_option ((@) m) (find_tutors_body r names st [])"
  unfolding find_tutors_body_eq[of r names st m] find_tutors_body_eq[of r names st "[]"]
  using check_pairing_acc[of _ r st m]
  by (auto split: option.splits)

lemma find_tutors_loop_run:
  "find_tutors_loop rows names st i m =
     run_body (\<lambda>r. find_tutors_body r names st) (drop i rows) m"
proof (induction rows names st i m rule: find_tutors_loop.induct)
  case (1 rows names st i m)
  show ?case
  proof (cases "i < length rows")
    case True
    then have d: "drop i rows = rows ! i # drop (Suc i) rows"
      by (simp add: Cons_nth_drop_Suc)
    show ?thesis
    proof (cases "find_tutors_body (rows ! i) names st m")
      case None
      with True d show ?thesis
        by (subst find_tutors_loop.simps) simp
    next
      case (Some m')
      with True d "1.IH"[OF True Some] show ?thesis
        by (subst find_tutors_loop.simps) simp
    qed
  next
    case False
    then show ?thesis by (subst find_tutors_loop.simps) simp
  qed
qed

lemma find_tutors_run:
  "find_tutors (rows, flag, ws) names st = run_body (\<lambda>r. find_tutors_body r names st) rows []"
  by (simp add: find_tutors_def find_tutors_loop_run del: find_tutors_loop.simps)

lemma find_tutors_insert:
  "find_tutors (xs @ r # ys, flag, ws) names st =
    (case find_tutors (xs, flag, ws) names st of None \<Rightarrow> None | Some a \<Rightarrow>
      (case find_tutors_body r names st [] of None \<Rightarrow> None | Some e \<Rightarrow>
        (case find_tutors (ys, flag, ws) names st of None \<Rightarrow> None
         | Some c \<Rightarrow> Some (a @ e @ c))))"
  unfolding find_tutors_run
  by (rule run_body_split) (rule find_tutors_body_acc)

lemma find_tutors_skip:
  "find_tutors_body r names st [] = Some [] \<Longrightarrow>
   find_tutors (xs @ r # ys, flag, ws) names st = find_tutors (xs @ ys, flag, ws) names st"
  unfolding find_tutors_run
  by (rule run_body_skip) (rule find_tutors_body_acc, assumption)

lemma find_tutors_single:
  "find_tutors ([r], flag, ws) names st = find_tutors_body r names st []"
  by (simp add: find_tutors_run split: option.splits)

text \<open>The two inner loops over the pairing rows, and the body on its two paths.\<close>

lemma find_first_match:
  "\<forall>n\<in>set pre. \<not> P n \<Longrightarrow> P A \<Longrightarrow> List.find P (pre @ A # rest) = Some A"
  by (induction pre) simp_all

lemma find_no_match: "\<forall>n\<in>set names. \<not> P n \<Longrightarrow> List.find P names = None"
  by (induction names) simp_all

lemma check_pairing_no_row:
  assumes "4 \<le> length r" "\<forall>p\<in>set st. p \<noteq> [] \<and> p ! 0 \<noteq> r ! 0"
  shows "check_pairing t r st m = Some m"
  using assms(2)
proof (induction st)
  case Nil
  then show ?case by simp
next
  case (Cons p st)
  then have "getitem p 0 = Some (p ! 0)" "p ! 0 \<noteq> r ! 0"
    by (simp_all add: getitem_def)
  with Cons show ?case by (simp add: getitem4[OF assms(1)])
qed

lemma check_pairing_first_row:
  assumes "4 \<le> length r"
    and "\<forall>q\<in>set ps. q \<noteq> [] \<and> q ! 0 \<noteq> r ! 0"
    and "5 \<le> length p" "p ! 0 = r ! 0"
  shows "check_pairing t r (ps @ p # qs) m =
     (if t \<noteq> p ! 4 then Some (m @ [[r ! 0, r ! 1, r ! 2, p ! 4]]) else Some m)"
  using assms(2)
proof (induction ps)
  case Nil
  from assms(3) have "getitem p 0 = Some (p ! 0)" "getitem p 4 = Some (p ! 4)"
    by (auto simp: getitem_def)
  moreover from assms(1) have "3 \<le> length r" by simp
  ultimately show ?case
    using assms(4) by (simp add: getitem4[OF assms(1)] this_student3_in)
next
  case (Cons q ps)
  then have "getitem q 0 = Some (q ! 0)" "q ! 0 \<noteq> r ! 0"
    by (simp_all add: getitem_def)
  with Cons show ?case by (simp add: getitem4[OF assms(1)])
qed

lemma lookup_tutor_find:
  assumes "4 \<le> length r" "\<forall>p\<in>set st. 5 \<le> length p"
  shows "lookup_tutor r st tutor =
     Some (case List.find (\<lambda>p. p ! 0 = r ! 0) st of None \<Rightarrow> tutor | Some p \<Rightarrow> p ! 4)"
  using assms(2)
proof (induction st)
  case Nil
  then show ?case by simp
next
  case (Cons p st)
  then have "5 \<le> length p" by simp
  then have "getitem p 0 = Some (p ! 0)" "getitem p 4 = Some (p ! 4)"
    by (auto simp: getitem_def)
  with Cons show ?case by (simp add: getitem4[OF assms(1)])
qed

lemma body_matched:
  assumes "4 \<le> length r"
    and "\<forall>n\<in>set pre. \<not> sublist n (r ! 3)" and "sublist A (r ! 3)"
  shows "find_tutors_body r (pre @ A # rest) st m = check_pairing A r st m"
proof -
  have "List.find (\<lambda>n. str_contains n (r ! 3)) (pre @ A # rest) = Some A"
    using assms(2,3) by (intro find_first_match) (simp_all add: str_contains_sublist)
  then show ?thesis
    by (simp add: find_tutors_body_eq getitem4[OF assms(1)])
qed

lemma body_unmatched:
  assumes "4 \<le> length r"
    and "\<forall>n\<in>set names. \<not> sublist n (r ! 3)" and "\<forall>p\<in>set st. 5 \<le> length p"
  shows "find_tutors_body r names st m =
     Some (m @ [[r ! 0, r ! 1, r ! 2,
        case List.find (\<lambda>p. p ! 0 = r ! 0) st of None \<Rightarrow> [] | Some p \<Rightarrow> p ! 4]])"
proof -
  have f: "List.find (\<lambda>n. str_contains n (r ! 3)) names = None"
    using assms(2) by (intro find_no_match) (simp add: str_contains_sublist)
  from assms(1) have "3 \<le> length r" by simp
  then show ?thesis
    by (simp add: find_tutors_body_eq getitem4[OF assms(1)] f
        lookup_tutor_find[OF assms(1,3)] this_student3_in)
qed

lemma check_pairing_find:
  assumes "4 \<le> length r" "\<forall>p\<in>set st. 5 \<le> length p"
  shows "check_pairing t r st m =
     Some (m @ (case List.find (\<lambda>p. p ! 0 = r ! 0) st of
                  None \<Rightarrow> []
                | Some p \<Rightarrow> if t \<noteq> p ! 4 then [[r ! 0, r ! 1, r ! 2, p ! 4]] else []))"
  using assms(2)
proof (induction st)
  case Nil
  then show ?case by simp
next
  case (Cons p st)
  then have "5 \<le> length p" by simp
  then have "getitem p 0 = Some (p ! 0)" "getitem p 4 = Some (p ! 4)"
    by (auto simp: getitem_def)
  moreover from assms(1) have "3 \<le> length r" by simp
  ultimately show ?case
    using Cons by (simp add: getitem4[OF assms(1)] this_student3_in)
qed

section \<open>The tutor check\<close>

text \<open>
  C2. The roster is scanned in its order and only the first name that occurs in the data
  field is compared with the pairing table. When no name of \<open>pre\<close> occurs in
  \<^verbatim>\<open>student[3]\<close> and \<open>A\<close> does, the outcome for the row under the roster
  \<open>pre @ A # rest\<close> is decided by \<open>A\<close> alone: the row is appended, with the tutor of the
  first pairing row that has the student's identifier, exactly when that tutor differs
  from \<open>A\<close>, and nothing is appended when there is no such pairing row. The names of
  \<open>rest\<close> play no part, whether or not they occur in the field and whatever the pairing
  table says about them, so the row contributes what it contributes under the roster
  \<open>[A]\<close>.
\<close>

theorem roster_precedence:
  assumes "4 \<le> length student"
    and "\<forall>n\<in>set pre. \<not> sublist n (student ! 3)"
    and "sublist A (student ! 3)"
    and "\<forall>p\<in>set st_data. 5 \<le> length p"
    and "find_tutors (xs, flag, ws) (pre @ A # rest) st_data = Some a"
    and "find_tutors (ys, flag, ws) (pre @ A # rest) st_data = Some c"
  shows "find_tutors (xs @ student # ys, flag, ws) (pre @ A # rest) st_data =
           Some (a @ (case List.find (\<lambda>p. p ! 0 = student ! 0) st_data of
                        None \<Rightarrow> []
                      | Some p \<Rightarrow>
                          if A \<noteq> p ! 4
                          then [[student ! 0, student ! 1, student ! 2, p ! 4]]
                          else []) @ c)
         \<and> find_tutors (xs @ student # ys, flag, ws) (pre @ A # rest) st_data =
             map_option (\<lambda>e. a @ e @ c) (find_tutors ([student], flag, ws) [A] st_data)"
proof -
  have 1: "find_tutors_body student (pre @ A # rest) st_data [] = check_pairing A student st_data []"
    by (rule body_matched[OF assms(1,2,3)])
  have "find_tutors_body student ([] @ A # []) st_data [] = check_pairing A student st_data []"
    by (rule body_matched[OF assms(1) _ assms(3)]) simp
  then have 2: "find_tutors ([student], flag, ws) [A] st_data = check_pairing A student st_data []"
    by (simp add: find_tutors_single)
  have 3: "check_pairing A student st_data [] =
     Some (case List.find (\<lambda>p. p ! 0 = student ! 0) st_data of
             None \<Rightarrow> []
           | Some p \<Rightarrow>
               if A \<noteq> p ! 4 then [[student ! 0, student ! 1, student ! 2, p ! 4]] else [])"
    using check_pairing_find[OF assms(1,4), of A "[]"] by simp
  show ?thesis
    using assms(5,6) 1 2 3 by (simp add: find_tutors_insert)
qed

theorem roster_precedence_witness:
  "4 \<le> length [''S3'', ''Cy'', ''Ng'', ''tutor: Smith, Jones'']
   \<and> \<not> sublist ''Brown'' ([''S3'', ''Cy'', ''Ng'', ''tutor: Smith, Jones''] ! 3)
   \<and> sublist ''Smith'' ([''S3'', ''Cy'', ''Ng'', ''tutor: Smith, Jones''] ! 3)
   \<and> sublist ''Jones'' ([''S3'', ''Cy'', ''Ng'', ''tutor: Smith, Jones''] ! 3)
   \<and> 5 \<le> length [''S3'', ''Cy'', ''Ng'', ''C1'', ''Jones'']
   \<and> find_tutors ([], False, []) ([''Brown''] @ ''Smith'' # [''Jones''])
        [[''S3'', ''Cy'', ''Ng'', ''C1'', ''Jones'']] = Some []
   \<and> find_tutors ([[''S3'', ''Cy'', ''Ng'', ''tutor: Smith, Jones'']], False, [])
        [''Brown'', ''Smith'', ''Jones''] [[''S3'', ''Cy'', ''Ng'', ''C1'', ''Jones'']]
      = Some [[''S3'', ''Cy'', ''Ng'', ''Jones'']]
   \<and> find_tutors ([[''S3'', ''Cy'', ''Ng'', ''tutor: Smith, Jones'']], False, [])
        [''Smith''] [[''S3'', ''Cy'', ''Ng'', ''C1'', ''Jones'']]
      = Some [[''S3'', ''Cy'', ''Ng'', ''Jones'']]"
proof -
  have h1: "4 \<le> length [''S3'', ''Cy'', ''Ng'', ''tutor: Smith, Jones'']" by simp
  have h2: "\<forall>n\<in>set [''Brown'']. \<not> sublist n ([''S3'', ''Cy'', ''Ng'', ''tutor: Smith, Jones''] ! 3)"
    by code_simp
  have h3: "sublist ''Smith'' ([''S3'', ''Cy'', ''Ng'', ''tutor: Smith, Jones''] ! 3)"
    by code_simp
  have j: "sublist ''Jones'' ([''S3'', ''Cy'', ''Ng'', ''tutor: Smith, Jones''] ! 3)"
    by code_simp
  have h4: "\<forall>p\<in>set [[''S3'', ''Cy'', ''Ng'', ''C1'', ''Jones'']]. 5 \<le> length p" by simp
  have h5: "find_tutors ([], False, []) ([''Brown''] @ ''Smith'' # [''Jones''])
        [[''S3'', ''Cy'', ''Ng'', ''C1'', ''Jones'']] = Some []"
    by code_simp
  note t = roster_precedence[OF h1 h2 h3 h4 h5 h5]
  have a: "find_tutors ([[''S3'', ''Cy'', ''Ng'', ''tutor: Smith, Jones'']], False, [])
          [''Brown'', ''Smith'', ''Jones''] [[''S3'', ''Cy'', ''Ng'', ''C1'', ''Jones'']]
        = Some [[''S3'', ''Cy'', ''Ng'', ''Jones'']]"
    using conjunct1[OF t] by simp
  have "find_tutors ([[''S3'', ''Cy'', ''Ng'', ''tutor: Smith, Jones'']], False, [])
          [''Brown'', ''Smith'', ''Jones''] [[''S3'', ''Cy'', ''Ng'', ''C1'', ''Jones'']]
        = map_option (\<lambda>e. e)
            (find_tutors ([[''S3'', ''Cy'', ''Ng'', ''tutor: Smith, Jones'']], False, [])
               [''Smith''] [[''S3'', ''Cy'', ''Ng'', ''C1'', ''Jones'']])"
    using conjunct2[OF t] by simp
  with a have "find_tutors ([[''S3'', ''Cy'', ''Ng'', ''tutor: Smith, Jones'']], False, [])
          [''Smith''] [[''S3'', ''Cy'', ''Ng'', ''C1'', ''Jones'']]
        = Some [[''S3'', ''Cy'', ''Ng'', ''Jones'']]"
    by (simp add: option.map_ident)
  with a have "find_tutors ([[''S3'', ''Cy'', ''Ng'', ''tutor: Smith, Jones'']], False, [])
          [''Brown'', ''Smith'', ''Jones''] [[''S3'', ''Cy'', ''Ng'', ''C1'', ''Jones'']]
        = Some [[''S3'', ''Cy'', ''Ng'', ''Jones'']]
      \<and> find_tutors ([[''S3'', ''Cy'', ''Ng'', ''tutor: Smith, Jones'']], False, [])
          [''Smith''] [[''S3'', ''Cy'', ''Ng'', ''C1'', ''Jones'']]
        = Some [[''S3'', ''Cy'', ''Ng'', ''Jones'']]"
    by simp
  then show ?thesis
    using h1 h2 h3 j h4 h5 by simp
qed

text \<open>
  C4. When the first roster name \<open>A\<close> found in the data field differs from
  \<^verbatim>\<open>item[4]\<close> of the first pairing row \<open>p\<close> whose \<^verbatim>\<open>item[0]\<close> is the student's
  identifier, the row is appended with \<open>p ! 4\<close> as its fourth field, not with \<open>A\<close>.
\<close>

theorem mismatch_reports_pairing_tutor:
  assumes "4 \<le> length student"
    and "\<forall>n\<in>set pre. \<not> sublist n (student ! 3)"
    and "sublist A (student ! 3)"
    and "\<forall>q\<in>set ps. q \<noteq> [] \<and> q ! 0 \<noteq> student ! 0"
    and "5 \<le> length p" and "p ! 0 = student ! 0" and "p ! 4 \<noteq> A"
    and "find_tutors (xs, flag, ws) (pre @ A # rest) (ps @ p # qs) = Some a"
    and "find_tutors (ys, flag, ws) (pre @ A # rest) (ps @ p # qs) = Some c"
  shows "find_tutors (xs @ student # ys, flag, ws) (pre @ A # rest) (ps @ p # qs) =
     Some (a @ [student ! 0, student ! 1, student ! 2, p ! 4] # c)"
proof -
  have "find_tutors_body student (pre @ A # rest) (ps @ p # qs) [] =
      Some [[student ! 0, student ! 1, student ! 2, p ! 4]]"
    using assms(7)
    by (simp add: body_matched[OF assms(1,2,3)] check_pairing_first_row[OF assms(1,4,5,6)])
  then show ?thesis
    using assms(8,9) by (simp add: find_tutors_insert)
qed

theorem mismatch_reports_pairing_tutor_witness:
  "4 \<le> length [''S3'', ''Cy'', ''Ng'', ''tutor: Smith'']
   \<and> sublist ''Smith'' ([''S3'', ''Cy'', ''Ng'', ''tutor: Smith''] ! 3)
   \<and> [''S1'', ''Ann'', ''Lee'', ''C1'', ''Smith''] ! 0 \<noteq> [''S3'', ''Cy'', ''Ng'', ''tutor: Smith''] ! 0
   \<and> 5 \<le> length [''S3'', ''Cy'', ''Ng'', ''C1'', ''Jones'']
   \<and> [''S3'', ''Cy'', ''Ng'', ''C1'', ''Jones''] ! 0 = [''S3'', ''Cy'', ''Ng'', ''tutor: Smith''] ! 0
   \<and> [''S3'', ''Cy'', ''Ng'', ''C1'', ''Jones''] ! 4 \<noteq> ''Smith''
   \<and> find_tutors ([[''S3'', ''Cy'', ''Ng'', ''tutor: Smith'']], False, []) [''Smith'', ''Jones'']
        [[''S1'', ''Ann'', ''Lee'', ''C1'', ''Smith''], [''S3'', ''Cy'', ''Ng'', ''C1'', ''Jones'']]
      = Some [[''S3'', ''Cy'', ''Ng'', ''Jones'']]"
proof -
  have h1: "4 \<le> length [''S3'', ''Cy'', ''Ng'', ''tutor: Smith'']" by simp
  have h2: "\<forall>n\<in>set []. \<not> sublist n ([''S3'', ''Cy'', ''Ng'', ''tutor: Smith''] ! 3)" by simp
  have h3: "sublist ''Smith'' ([''S3'', ''Cy'', ''Ng'', ''tutor: Smith''] ! 3)" by code_simp
  have h4: "\<forall>q\<in>set [[''S1'', ''Ann'', ''Lee'', ''C1'', ''Smith'']].
         q \<noteq> [] \<and> q ! 0 \<noteq> [''S3'', ''Cy'', ''Ng'', ''tutor: Smith''] ! 0" by simp
  have h5: "5 \<le> length [''S3'', ''Cy'', ''Ng'', ''C1'', ''Jones'']" by simp
  have h6: "[''S3'', ''Cy'', ''Ng'', ''C1'', ''Jones''] ! 0 = [''S3'', ''Cy'', ''Ng'', ''tutor: Smith''] ! 0"
    by simp
  have h7: "[''S3'', ''Cy'', ''Ng'', ''C1'', ''Jones''] ! 4 \<noteq> ''Smith''" by simp
  have h8: "find_tutors ([], False, []) ([] @ ''Smith'' # [''Jones''])
      ([[''S1'', ''Ann'', ''Lee'', ''C1'', ''Smith'']] @ [''S3'', ''Cy'', ''Ng'', ''C1'', ''Jones''] # [])
      = Some []"
    by code_simp
  show ?thesis
    using h1 h2 h3 h4 h5 h6 h7 mismatch_reports_pairing_tutor[OF h1 h2 h3 h4 h5 h6 h7 h8 h8]
    by simp
qed

text \<open>
  C6. When no roster name occurs in the data field, the row is always appended; its fourth
  field is \<^verbatim>\<open>item[4]\<close> of the first pairing row with the student's identifier, or the
  empty string when there is no such row.
\<close>

theorem no_roster_name_always_flagged:
  assumes "4 \<le> length student"
    and "\<forall>n\<in>set tutor_names. \<not> sublist n (student ! 3)"
    and "\<forall>p\<in>set st_data. 5 \<le> length p"
    and "find_tutors (xs, flag, ws) tutor_names st_data = Some a"
    and "find_tutors (ys, flag, ws) tutor_names st_data = Some c"
  shows "find_tutors (xs @ student # ys, flag, ws) tutor_names st_data =
     Some (a @ [student ! 0, student ! 1, student ! 2,
                case List.find (\<lambda>p. p ! 0 = student ! 0) st_data of
                  None \<Rightarrow> [] | Some p \<Rightarrow> p ! 4] # c)"
  using assms(4,5)
  by (simp add: find_tutors_insert body_unmatched[OF assms(1,2,3)])

theorem no_roster_name_always_flagged_witness:
  "4 \<le> length [''S4'', ''Di'', ''Wu'', ''no tutor here'']
   \<and> \<not> sublist ''Smith'' ([''S4'', ''Di'', ''Wu'', ''no tutor here''] ! 3)
   \<and> \<not> sublist ''Jones'' ([''S4'', ''Di'', ''Wu'', ''no tutor here''] ! 3)
   \<and> 5 \<le> length [''S3'', ''Cy'', ''Ng'', ''C1'', ''Jones'']
   \<and> find_tutors ([[''S3'', ''Cy'', ''Ng'', ''none'']], False, []) [''Smith'', ''Jones'']
        [[''S3'', ''Cy'', ''Ng'', ''C1'', ''Jones'']] = Some [[''S3'', ''Cy'', ''Ng'', ''Jones'']]
   \<and> find_tutors ([], False, []) [''Smith'', ''Jones'']
        [[''S3'', ''Cy'', ''Ng'', ''C1'', ''Jones'']] = Some []
   \<and> find_tutors ([[''S3'', ''Cy'', ''Ng'', ''none''], [''S4'', ''Di'', ''Wu'', ''no tutor here'']],
        False, []) [''Smith'', ''Jones''] [[''S3'', ''Cy'', ''Ng'', ''C1'', ''Jones'']]
      = Some [[''S3'', ''Cy'', ''Ng'', ''Jones''], [''S4'', ''Di'', ''Wu'', []]]"
proof -
  have h1: "4 \<le> length [''S4'', ''Di'', ''Wu'', ''no tutor here'']" by simp
  have h2: "\<forall>n\<in>set [''Smith'', ''Jones''].
      \<not> sublist n ([''S4'', ''Di'', ''Wu'', ''no tutor here''] ! 3)"
    by code_simp
  have h3: "\<forall>p\<in>set [[''S3'', ''Cy'', ''Ng'', ''C1'', ''Jones'']]. 5 \<le> length p" by simp
  have h4: "find_tutors ([[''S3'', ''Cy'', ''Ng'', ''none'']], False, []) [''Smith'', ''Jones'']
        [[''S3'', ''Cy'', ''Ng'', ''C1'', ''Jones'']] = Some [[''S3'', ''Cy'', ''Ng'', ''Jones'']]"
    by code_simp
  have h5: "find_tutors ([], False, []) [''Smith'', ''Jones'']
        [[''S3'', ''Cy'', ''Ng'', ''C1'', ''Jones'']] = Some []"
    by code_simp
  show ?thesis
    using h1 h2 h3 h4 h5 no_roster_name_always_flagged[OF h1 h2 h3 h4 h5] by simp
qed

text \<open>
  C7. When a roster name occurs in the data field and no pairing row has the student's
  identifier, the row adds nothing to the result.
\<close>

theorem matched_without_pairing_not_flagged:
  assumes "4 \<le> length student"
    and "\<forall>n\<in>set pre. \<not> sublist n (student ! 3)"
    and "sublist A (student ! 3)"
    and "\<forall>p\<in>set st_data. p \<noteq> [] \<and> p ! 0 \<noteq> student ! 0"
  shows "find_tutors (xs @ student # ys, flag, ws) (pre @ A # rest) st_data =
         find_tutors (xs @ ys, flag, ws) (pre @ A # rest) st_data"
proof -
  have "find_tutors_body student (pre @ A # rest) st_data [] = Some []"
    by (simp add: body_matched[OF assms(1,2,3)] check_pairing_no_row[OF assms(1,4)])
  then show ?thesis by (rule find_tutors_skip)
qed

theorem matched_without_pairing_not_flagged_witness:
  "4 \<le> length [''S5'', ''Ed'', ''Fox'', ''tutor: Jones'']
   \<and> \<not> sublist ''Smith'' ([''S5'', ''Ed'', ''Fox'', ''tutor: Jones''] ! 3)
   \<and> sublist ''Jones'' ([''S5'', ''Ed'', ''Fox'', ''tutor: Jones''] ! 3)
   \<and> [''S3'', ''Cy'', ''Ng'', ''C1'', ''Jones''] ! 0 \<noteq> [''S5'', ''Ed'', ''Fox'', ''tutor: Jones''] ! 0
   \<and> find_tutors ([[''S3'', ''Cy'', ''Ng'', ''none''], [''S5'', ''Ed'', ''Fox'', ''tutor: Jones'']],
        False, []) [''Smith'', ''Jones''] [[''S3'', ''Cy'', ''Ng'', ''C1'', ''Jones'']]
      = Some [[''S3'', ''Cy'', ''Ng'', ''Jones'']]"
proof -
  have h1: "4 \<le> length [''S5'', ''Ed'', ''Fox'', ''tutor: Jones'']" by simp
  have h2: "\<forall>n\<in>set [''Smith'']. \<not> sublist n ([''S5'', ''Ed'', ''Fox'', ''tutor: Jones''] ! 3)"
    by code_simp
  have h3: "sublist ''Jones'' ([''S5'', ''Ed'', ''Fox'', ''tutor: Jones''] ! 3)" by code_simp
  have h4: "\<forall>p\<in>set [[''S3'', ''Cy'', ''Ng'', ''C1'', ''Jones'']].
         p \<noteq> [] \<and> p ! 0 \<noteq> [''S5'', ''Ed'', ''Fox'', ''tutor: Jones''] ! 0" by simp
  have e: "find_tutors ([[''S3'', ''Cy'', ''Ng'', ''none'']] @ [], False, [])
        ([''Smith''] @ ''Jones'' # []) [[''S3'', ''Cy'', ''Ng'', ''C1'', ''Jones'']]
      = Some [[''S3'', ''Cy'', ''Ng'', ''Jones'']]"
    by code_simp
  show ?thesis
    using h1 h2 h3 h4 e
      matched_without_pairing_not_flagged[OF h1 h2 h3 h4,
        of "[[''S3'', ''Cy'', ''Ng'', ''none'']]" "[]" False "[]" "[]"]
    by simp
qed

lemma run_body_subseq:
  assumes step: "\<And>r m m'. f r m = Some m' \<Longrightarrow> m' = m \<or> (\<exists>e. m' = m @ [e] \<and> g e = h r)"
  shows "run_body f rows m = Some out \<Longrightarrow> \<exists>out'. out = m @ out' \<and> subseq (map g out') (map h rows)"
proof (induction rows arbitrary: m)
  case Nil
  then show ?case by simp
next
  case (Cons r rows)
  from Cons.prems obtain m' where b: "f r m = Some m'" and rest: "run_body f rows m' = Some out"
    by (auto split: option.splits)
  from Cons.IH[OF rest] obtain out' where o: "out = m' @ out'"
    and s: "subseq (map g out') (map h rows)" by blast
  from step[OF b] show ?case
  proof
    assume "m' = m"
    with o s show ?thesis by auto
  next
    assume "\<exists>e. m' = m @ [e] \<and> g e = h r"
    then obtain e where e: "m' = m @ [e]" "g e = h r" by blast
    have "out = m @ (e # out')" using o e by simp
    moreover have "subseq (map g (e # out')) (map h (r # rows))" using s e by simp
    ultimately show ?thesis by blast
  qed
qed

lemma run_body_total:
  "(\<And>r m. r \<in> set rows \<Longrightarrow> f r m \<noteq> None) \<Longrightarrow> run_body f rows m \<noteq> None"
proof (induction rows arbitrary: m)
  case Nil
  then show ?case by simp
next
  case (Cons r rows)
  have "f r m \<noteq> None" by (rule Cons.prems) simp
  then obtain m' where "f r m = Some m'" by auto
  moreover have "run_body f rows m' \<noteq> None"
    by (rule Cons.IH) (rule Cons.prems, simp)
  ultimately show ?case by simp
qed

lemma ids_body_step:
  assumes "find_student_ids_body r m = Some m'"
  shows "m' = m \<or> (\<exists>e. m' = m @ [e] \<and> e = take 3 r)"
  using assms unfolding find_student_ids_body_def
  by (auto simp: Let_def Option.bind_eq_Some_conv split: if_splits dest: this_student3_take)

lemma this_student3_entry:
  assumes "this_student3 r = Some t"
  shows "take 3 t @ take (3 - length t) [x] = take 3 r"
proof -
  have "t = take 3 r" using assms by (rule this_student3_take)
  moreover have "3 \<le> length r" using assms by (rule this_student3_length)
  ultimately show ?thesis by simp
qed

lemma check_pairing_step:
  "check_pairing t r st m = Some m' \<Longrightarrow> m' = m \<or> (\<exists>e. m' = m @ [e] \<and> take 3 e = take 3 r)"
proof (induction st)
  case Nil
  then show ?case by simp
next
  case (Cons p st)
  then show ?case
    by (auto simp: Option.bind_eq_Some_conv this_student3_entry split: if_splits)
qed

lemma tutors_body_step:
  assumes "find_tutors_body r names st m = Some m'"
  shows "m' = m \<or> (\<exists>e. m' = m @ [e] \<and> take 3 e = take 3 r)"
  using assms unfolding find_tutors_body_eq
  by (auto simp: this_student3_entry split: option.splits if_splits dest: check_pairing_step)

lemma ids_body_total: "4 \<le> length r \<Longrightarrow> find_student_ids_body r m \<noteq> None"
proof -
  assume a: "4 \<le> length r"
  then have "3 \<le> length r" by simp
  then show ?thesis
    unfolding find_student_ids_body_def
    by (simp add: getitem4[OF a] this_student3_in Let_def)
qed

lemma check_pairing_total:
  assumes "4 \<le> length r" "\<forall>p\<in>set st. 5 \<le> length p"
  shows "check_pairing t r st m \<noteq> None"
  using assms(2)
proof (induction st)
  case Nil
  then show ?case by simp
next
  case (Cons p st)
  then have "5 \<le> length p" by simp
  then have "getitem p 0 = Some (p ! 0)" "getitem p 4 = Some (p ! 4)"
    by (auto simp: getitem_def)
  moreover from assms(1) have "3 \<le> length r" by simp
  ultimately show ?case
    using Cons by (simp add: getitem4[OF assms(1)] this_student3_in)
qed

lemma tutors_body_total:
  assumes "4 \<le> length r" "\<forall>p\<in>set st. 5 \<le> length p"
  shows "find_tutors_body r names st m \<noteq> None"
proof -
  from assms(1) have "3 \<le> length r" by simp
  then show ?thesis
    unfolding find_tutors_body_eq
    using check_pairing_total[OF assms]
    by (simp add: getitem4[OF assms(1)] lookup_tutor_find[OF assms] this_student3_in
        split: option.splits)
qed

lemma find_student_ids_total:
  "\<forall>row\<in>set rows. 4 \<le> length row \<Longrightarrow> find_student_ids (rows, flag, ws) \<noteq> None"
  unfolding find_student_ids_run
  by (rule run_body_total) (simp add: ids_body_total)

lemma find_tutors_total:
  "\<forall>row\<in>set rows. 4 \<le> length row \<Longrightarrow> \<forall>p\<in>set st. 5 \<le> length p \<Longrightarrow>
   find_tutors (rows, flag, ws) names st \<noteq> None"
  unfolding find_tutors_run
  by (rule run_body_total) (simp add: tutors_body_total)

section \<open>Order of the output, and exceptions\<close>

text \<open>
  C8. Each row appends at most one entry, at the end, and the entry starts with the row's
  first three fields. So the result of \<^verbatim>\<open>find_student_ids\<close> is a subsequence of the
  rows' first three fields, in the order of the rows, and so are the first three fields of
  the result of \<^verbatim>\<open>find_tutors\<close>. Both functions return a result when every student row
  has 4 fields and every pairing row has 5.
\<close>

theorem output_preserves_input_order:
  "(find_student_ids (rows, flag, ws) = Some out1 \<longrightarrow> subseq out1 (map (take 3) rows))
   \<and> (find_tutors (rows, flag, ws) tutor_names st_data = Some out2 \<longrightarrow>
        subseq (map (take 3) out2) (map (take 3) rows))
   \<and> ((\<forall>row\<in>set rows. 4 \<le> length row) \<and> (\<forall>p\<in>set st_data. 5 \<le> length p) \<longrightarrow>
        find_student_ids (rows, flag, ws) \<noteq> None
        \<and> find_tutors (rows, flag, ws) tutor_names st_data \<noteq> None)"
proof (intro conjI impI)
  assume "find_student_ids (rows, flag, ws) = Some out1"
  then have "run_body find_student_ids_body rows [] = Some out1"
    by (simp add: find_student_ids_run)
  from run_body_subseq[of find_student_ids_body "\<lambda>e. e" "take 3", OF _ this]
  show "subseq out1 (map (take 3) rows)"
    using ids_body_step by auto
next
  assume "find_tutors (rows, flag, ws) tutor_names st_data = Some out2"
  then have "run_body (\<lambda>r. find_tutors_body r tutor_names st_data) rows [] = Some out2"
    by (simp add: find_tutors_run)
  from run_body_subseq[of "\<lambda>r. find_tutors_body r tutor_names st_data" "take 3" "take 3", OF _ this]
  show "subseq (map (take 3) out2) (map (take 3) rows)"
    using tutors_body_step by auto
next
  assume "(\<forall>row\<in>set rows. 4 \<le> length row) \<and> (\<forall>p\<in>set st_data. 5 \<le> length p)"
  then show "find_student_ids (rows, flag, ws) \<noteq> None"
    by (simp add: find_student_ids_total)
next
  assume "(\<forall>row\<in>set rows. 4 \<le> length row) \<and> (\<forall>p\<in>set st_data. 5 \<le> length p)"
  then show "find_tutors (rows, flag, ws) tutor_names st_data \<noteq> None"
    by (simp add: find_tutors_total)
qed

theorem output_preserves_input_order_witness:
  "find_student_ids ([[''S1'', ''Ann'', ''Lee'', ''none''], [''FitNZ1234'', ''Bo'', ''Tan'', ''FitNZ1234 Smith''],
       [''S3'', ''Cy'', ''Ng'', ''FitNZ9999'']], False, [])
     = Some [[''S1'', ''Ann'', ''Lee''], [''S3'', ''Cy'', ''Ng'']]
   \<and> subseq [[''S1'', ''Ann'', ''Lee''], [''S3'', ''Cy'', ''Ng'']]
        (map (take 3) [[''S1'', ''Ann'', ''Lee'', ''none''], [''FitNZ1234'', ''Bo'', ''Tan'', ''FitNZ1234 Smith''],
           [''S3'', ''Cy'', ''Ng'', ''FitNZ9999'']])
   \<and> find_tutors ([[''S1'', ''Ann'', ''Lee'', ''none''], [''FitNZ1234'', ''Bo'', ''Tan'', ''FitNZ1234 Smith''],
       [''S3'', ''Cy'', ''Ng'', ''FitNZ9999'']], False, []) [''Smith'']
       [[''S3'', ''Cy'', ''Ng'', ''C1'', ''Jones'']]
     = Some [[''S1'', ''Ann'', ''Lee'', []], [''S3'', ''Cy'', ''Ng'', ''Jones'']]
   \<and> subseq (map (take 3) [[''S1'', ''Ann'', ''Lee'', []], [''S3'', ''Cy'', ''Ng'', ''Jones'']])
        (map (take 3) [[''S1'', ''Ann'', ''Lee'', ''none''], [''FitNZ1234'', ''Bo'', ''Tan'', ''FitNZ1234 Smith''],
           [''S3'', ''Cy'', ''Ng'', ''FitNZ9999'']])
   \<and> 4 \<le> length [''S1'', ''Ann'', ''Lee'', ''none'']
   \<and> 4 \<le> length [''FitNZ1234'', ''Bo'', ''Tan'', ''FitNZ1234 Smith'']
   \<and> 4 \<le> length [''S3'', ''Cy'', ''Ng'', ''FitNZ9999'']
   \<and> 5 \<le> length [''S3'', ''Cy'', ''Ng'', ''C1'', ''Jones'']"
proof -
  have h1: "find_student_ids ([[''S1'', ''Ann'', ''Lee'', ''none''], [''FitNZ1234'', ''Bo'', ''Tan'', ''FitNZ1234 Smith''],
       [''S3'', ''Cy'', ''Ng'', ''FitNZ9999'']], False, [])
     = Some [[''S1'', ''Ann'', ''Lee''], [''S3'', ''Cy'', ''Ng'']]"
    by code_simp
  have h2: "find_tutors ([[''S1'', ''Ann'', ''Lee'', ''none''], [''FitNZ1234'', ''Bo'', ''Tan'', ''FitNZ1234 Smith''],
       [''S3'', ''Cy'', ''Ng'', ''FitNZ9999'']], False, []) [''Smith'']
       [[''S3'', ''Cy'', ''Ng'', ''C1'', ''Jones'']]
     = Some [[''S1'', ''Ann'', ''Lee'', []], [''S3'', ''Cy'', ''Ng'', ''Jones'']]"
    by code_simp
  have h3: "\<forall>row\<in>set [[''S1'', ''Ann'', ''Lee'', ''none''], [''FitNZ1234'', ''Bo'', ''Tan'', ''FitNZ1234 Smith''],
           [''S3'', ''Cy'', ''Ng'', ''FitNZ9999'']]. 4 \<le> length row" by simp
  have h4: "\<forall>p\<in>set [[''S3'', ''Cy'', ''Ng'', ''C1'', ''Jones'']]. 5 \<le> length p" by simp
  show ?thesis
    using h1 h2 h3 h4
      output_preserves_input_order[of
        "[[''S1'', ''Ann'', ''Lee'', ''none''], [''FitNZ1234'', ''Bo'', ''Tan'', ''FitNZ1234 Smith''],
          [''S3'', ''Cy'', ''Ng'', ''FitNZ9999'']]" False "[]"
        "[[''S1'', ''Ann'', ''Lee''], [''S3'', ''Cy'', ''Ng'']]"
        "[''Smith'']" "[[''S3'', ''Cy'', ''Ng'', ''C1'', ''Jones'']]"
        "[[''S1'', ''Ann'', ''Lee'', []], [''S3'', ''Cy'', ''Ng'', ''Jones'']]"]
    by (simp del: subseq_Cons2_iff)
qed

lemma getitem5:
  assumes "5 \<le> length r"
  shows "getitem r 0 = Some (r ! 0)" "getitem r 1 = Some (r ! 1)"
    "getitem r (Suc 0) = Some (r ! 1)"
    "getitem r 2 = Some (r ! 2)" "getitem r 3 = Some (r ! 3)" "getitem r 4 = Some (r ! 4)"
  using assms by (auto simp: getitem_def)

lemma check_fields_student_eq:
  assumes "4 \<le> length r"
  shows "check_fields_student r (e, w) =
     Some (e @ (if r ! 3 = [] then [''Data is missing for student with Student ID '' @ r ! 0] else []),
           w @ (if r ! 1 = [] then [''First Name is missing for student with Student ID '' @ r ! 0] else [])
             @ (if r ! 2 = [] then [''Last Name is missing for student with Student ID '' @ r ! 0] else []))"
  unfolding check_fields_student_def by (simp add: getitem4[OF assms])

lemma check_fields_loop_eq:
  assumes "\<forall>row\<in>set rows. 4 \<le> length row"
  shows "check_fields_loop rows (e, w) =
     Some (e @ map (\<lambda>row. ''Data is missing for student with Student ID '' @ row ! 0)
                 (filter (\<lambda>row. row ! 3 = []) rows),
           w @ concat (map (\<lambda>row.
                 (if row ! 1 = [] then [''First Name is missing for student with Student ID '' @ row ! 0] else [])
               @ (if row ! 2 = [] then [''Last Name is missing for student with Student ID '' @ row ! 0] else []))
               rows))"
  using assms
proof (induction rows arbitrary: e w)
  case Nil
  then show ?case by simp
next
  case (Cons r rows)
  then have r: "4 \<le> length r" and rest: "\<forall>row\<in>set rows. 4 \<le> length row" by simp_all
  show ?case
    by (simp add: check_fields_student_eq[OF r] Cons.IH[OF rest])
qed

lemma check_s_t_student_total:
  assumes "5 \<le> length r"
  shows "check_s_t_student r acc \<noteq> None"
  unfolding check_s_t_student_def
  by (cases acc) (simp add: getitem5[OF assms])

lemma check_s_t_loop_total:
  "\<forall>row\<in>set rows. 5 \<le> length row \<Longrightarrow> check_s_t_loop rows acc \<noteq> None"
proof (induction rows arbitrary: acc)
  case Nil
  then show ?case by simp
next
  case (Cons r rows)
  then have "check_s_t_student r acc \<noteq> None" by (simp add: check_s_t_student_total)
  then obtain acc' where "check_s_t_student r acc = Some acc'" by auto
  with Cons show ?case by simp
qed

text \<open>
  C9 as stated fails: no function checks the length of a row, and a row shorter than the
  fields it is read at raises IndexError, which nothing catches. A one-field row makes
  \<^verbatim>\<open>check_fields_data\<close> raise at \<^verbatim>\<open>student[1]\<close>, and a three-field row makes
  \<^verbatim>\<open>find_student_ids\<close> raise at \<^verbatim>\<open>student[3]\<close>.
\<close>

theorem short_row_raises_counterexample:
  "check_fields_data [[''S1'']] = None
   \<and> find_student_ids ([[''S1'', ''Ann'', ''Lee'']], False, []) = None"
  by code_simp

text \<open>
  C9, amended. When every student row has at least 4 fields and every pairing row at
  least 5, the four functions return a result: nothing is raised.
\<close>

theorem no_exception_on_full_rows:
  assumes "\<forall>row\<in>set rows. 4 \<le> length row"
    and "\<forall>p\<in>set st_data. 5 \<le> length p"
  shows "check_fields_data rows \<noteq> None
     \<and> check_s_t st_data \<noteq> None
     \<and> find_student_ids (rows, flag, ws) \<noteq> None
     \<and> find_tutors (rows, flag, ws) tutor_names st_data \<noteq> None"
proof (intro conjI)
  show "check_fields_data rows \<noteq> None"
    by (simp add: check_fields_data_def check_fields_loop_eq[OF assms(1)])
  have "check_s_t_loop st_data
      ([], [CHR 0x0A # ''Students Tutors data Warnings:'' @ [CHR 0x0A]]) \<noteq> None"
    by (rule check_s_t_loop_total[OF assms(2)])
  then show "check_s_t st_data \<noteq> None"
    by (auto simp: check_s_t_def)
  show "find_student_ids (rows, flag, ws) \<noteq> None"
    by (rule find_student_ids_total[OF assms(1)])
  show "find_tutors (rows, flag, ws) tutor_names st_data \<noteq> None"
    by (rule find_tutors_total[OF assms])
qed

theorem no_exception_on_full_rows_witness:
  "4 \<le> length [''S1'', [], ''Lee'', []]
   \<and> 4 \<le> length [''S3'', ''Cy'', ''Ng'', ''Smith'']
   \<and> 5 \<le> length [''S3'', ''Cy'', ''Ng'', [], []]
   \<and> check_fields_data [[''S1'', [], ''Lee'', []], [''S3'', ''Cy'', ''Ng'', ''Smith'']] \<noteq> None
   \<and> check_s_t [[''S3'', ''Cy'', ''Ng'', [], []]] \<noteq> None
   \<and> find_student_ids ([[''S1'', [], ''Lee'', []], [''S3'', ''Cy'', ''Ng'', ''Smith'']], False, [])
        \<noteq> None
   \<and> find_tutors ([[''S1'', [], ''Lee'', []], [''S3'', ''Cy'', ''Ng'', ''Smith'']], False, [])
        [''Smith''] [[''S3'', ''Cy'', ''Ng'', [], []]] \<noteq> None"
proof -
  have h1: "\<forall>row\<in>set [[''S1'', [], ''Lee'', []], [''S3'', ''Cy'', ''Ng'', ''Smith'']].
      4 \<le> length row" by simp
  have h2: "\<forall>p\<in>set [[''S3'', ''Cy'', ''Ng'', [], []]]. 5 \<le> length p" by simp
  show ?thesis
    using h1 h2 no_exception_on_full_rows[OF h1 h2, of False "[]" "[''Smith'']"] by simp
qed

section \<open>The field validator and the identifier check\<close>

lemma run_body_filter:
  assumes "\<And>r m. r \<in> set rows \<Longrightarrow> f r m = Some (m @ (if P r then [g r] else []))"
  shows "run_body f rows m = Some (m @ map g (filter P rows))"
  using assms
proof (induction rows arbitrary: m)
  case Nil
  then show ?case by simp
next
  case (Cons r rows)
  have b: "f r m = Some (m @ (if P r then [g r] else []))"
    by (rule Cons.prems) simp
  have "run_body f rows (m @ (if P r then [g r] else [])) =
      Some ((m @ (if P r then [g r] else [])) @ map g (filter P rows))"
    by (rule Cons.IH) (rule Cons.prems, simp)
  with b show ?case by simp
qed

lemma ids_body_flagged:
  assumes "4 \<le> length r"
  shows "find_student_ids_body r m =
     Some (m @ (if r ! 3 = [] \<or> \<not> str_contains identifier (r ! 3)
                  \<or> str_slice (r ! 3) (str_find (r ! 3) identifier)
                        (str_find (r ! 3) identifier + 9) \<noteq> r ! 0
                then [take 3 r] else []))"
proof -
  from assms have 3: "3 \<le> length r" by simp
  have e: "r ! 3 = [] \<Longrightarrow> \<not> str_contains identifier (r ! 3)"
    by (simp add: identifier_def)
  show ?thesis
    unfolding find_student_ids_body_def
    using e by (auto simp: getitem4[OF assms] this_student3_in[OF 3] take3[OF 3] Let_def)
qed

text \<open>
  C5 as stated fails. A row with an empty data field is reported once to the error log
  and is still checked for its identifier: the marker is not in the empty field, so the
  row is appended to the result of \<^verbatim>\<open>find_student_ids\<close>, which then has one entry for
  it, not none.
\<close>

theorem empty_data_flagged_counterexample:
  "[''S1'', ''Ann'', ''Lee'', []] ! 3 = []
   \<and> map_option log_call (check_fields_data [[''S1'', ''Ann'', ''Lee'', []]])
       = Some (Some ([''Data is missing for student with Student ID S1''],
                     ''Student Profile Fields Report''))
   \<and> find_student_ids ([[''S1'', ''Ann'', ''Lee'', []]], False, [])
       = Some [[''S1'', ''Ann'', ''Lee'']]"
  by code_simp

text \<open>
  C5, amended. On rows of at least 4 fields, the error list handed to the error log has
  exactly one entry for each row whose data field (index 3) is empty and no other entry;
  the warnings are the title followed, row by row, by one warning for an empty first name
  and one for an empty last name; and each row with an empty data field has exactly one
  entry in the result of \<^verbatim>\<open>find_student_ids\<close>, which is the rows that are kept by the
  identifier check, each reduced to its first three fields.
\<close>

theorem validator_separation:
  assumes "\<forall>row\<in>set rows. 4 \<le> length row"
  shows "(\<exists>res. check_fields_data rows = Some res
           \<and> log_call res =
               (let errors = map (\<lambda>row. ''Data is missing for student with Student ID '' @ row ! 0)
                                 (filter (\<lambda>row. row ! 3 = []) rows)
                in if errors = [] then None
                   else Some (errors, ''Student Profile Fields Report''))
           \<and> warning_list res =
               (CHR 0x0A # ''Student Profile Fields Report Warnings:'' @ [CHR 0x0A])
               # concat (map (\<lambda>row.
                   (if row ! 1 = []
                    then [''First Name is missing for student with Student ID '' @ row ! 0]
                    else [])
                   @ (if row ! 2 = []
                      then [''Last Name is missing for student with Student ID '' @ row ! 0]
                      else [])) rows))
     \<and> find_student_ids (rows, flag, ws) =
         Some (map (take 3)
           (filter (\<lambda>row. row ! 3 = [] \<or> \<not> str_contains identifier (row ! 3)
                      \<or> str_slice (row ! 3) (str_find (row ! 3) identifier)
                            (str_find (row ! 3) identifier + 9) \<noteq> row ! 0) rows))"
proof (intro conjI)
  show "\<exists>res. check_fields_data rows = Some res
           \<and> log_call res =
               (let errors = map (\<lambda>row. ''Data is missing for student with Student ID '' @ row ! 0)
                                 (filter (\<lambda>row. row ! 3 = []) rows)
                in if errors = [] then None
                   else Some (errors, ''Student Profile Fields Report''))
           \<and> warning_list res =
               (CHR 0x0A # ''Student Profile Fields Report Warnings:'' @ [CHR 0x0A])
               # concat (map (\<lambda>row.
                   (if row ! 1 = []
                    then [''First Name is missing for student with Student ID '' @ row ! 0]
                    else [])
                   @ (if row ! 2 = []
                      then [''Last Name is missing for student with Student ID '' @ row ! 0]
                      else [])) rows)"
    by (simp add: check_fields_data_def check_fields_loop_eq[OF assms] finish_check_def Let_def)
  have "run_body find_student_ids_body rows [] =
      Some ([] @ map (take 3)
           (filter (\<lambda>row. row ! 3 = [] \<or> \<not> str_contains identifier (row ! 3)
                      \<or> str_slice (row ! 3) (str_find (row ! 3) identifier)
                            (str_find (row ! 3) identifier + 9) \<noteq> row ! 0) rows))"
    by (rule run_body_filter) (use assms in \<open>simp add: ids_body_flagged\<close>)
  then show "find_student_ids (rows, flag, ws) =
         Some (map (take 3)
           (filter (\<lambda>row. row ! 3 = [] \<or> \<not> str_contains identifier (row ! 3)
                      \<or> str_slice (row ! 3) (str_find (row ! 3) identifier)
                            (str_find (row ! 3) identifier + 9) \<noteq> row ! 0) rows))"
    by (simp add: find_student_ids_run)
qed

theorem validator_separation_witness:
  "4 \<le> length [''S1'', [], ''Lee'', []]
   \<and> 4 \<le> length [''FitNZ1234'', ''Bo'', [], ''FitNZ1234'']
   \<and> map_option log_call
        (check_fields_data [[''S1'', [], ''Lee'', []], [''FitNZ1234'', ''Bo'', [], ''FitNZ1234'']])
       = Some (Some ([''Data is missing for student with Student ID S1''],
                     ''Student Profile Fields Report''))
   \<and> map_option warning_list
        (check_fields_data [[''S1'', [], ''Lee'', []], [''FitNZ1234'', ''Bo'', [], ''FitNZ1234'']])
       = Some [CHR 0x0A # ''Student Profile Fields Report Warnings:'' @ [CHR 0x0A],
               ''First Name is missing for student with Student ID S1'',
               ''Last Name is missing for student with Student ID FitNZ1234'']
   \<and> find_student_ids
        ([[''S1'', [], ''Lee'', []], [''FitNZ1234'', ''Bo'', [], ''FitNZ1234'']], False, [])
       = Some [[''S1'', [], ''Lee'']]"
proof -
  have h: "\<forall>row\<in>set [[''S1'', [], ''Lee'', []], [''FitNZ1234'', ''Bo'', [], ''FitNZ1234'']].
      4 \<le> length row" by simp
  have c: "str_contains identifier ''FitNZ1234''"
    "str_slice ''FitNZ1234'' (str_find ''FitNZ1234'' identifier)
       (str_find ''FitNZ1234'' identifier + 9) = ''FitNZ1234''"
    by code_simp+
  show ?thesis
    using validator_separation[OF h, of False "[]"] c
    by (auto simp: Let_def)
qed

end
